theory Spec2Isabelle
  imports Main "HOL-Library.Multiset" "HOL-Library.AList"
begin

section \<open>Data model of BookingService.js\<close>

text \<open>
  Dates are the ISO-8601 strings of the source, read as the instant they denote:
  an \<open>int\<close> of milliseconds since the epoch. The source compares them with
  \<open>===\<close> and orders them with lodash's \<open>_.sortBy\<close>; on strings of one ISO format
  both agree with equality and order of the instants. Quantities are JavaScript
  numbers holding integers, so \<open>int\<close>. An optional argument (\<open>newBooking\<close>,
  \<open>maxQuantity\<close>) is an \<open>option\<close>: \<open>None\<close> is \<open>undefined\<close>, and
  \<open>typeof maxQuantity === 'number'\<close> is \<open>maxQuantity \<noteq> None\<close>.
\<close>

record booking =
  startDate :: int
  endDate :: int
  quantity :: int

record listingAvailability = booking +
  available :: bool

text \<open>The optional \<open>newPeriod\<close> property: \<open>'start'\<close> or \<open>'end'\<close>.\<close>

datatype periodTag = PeriodStart | PeriodEnd

text \<open>An element of \<open>dateSteps\<close> in \<open>getAvailabilityPeriods\<close>.\<close>

record dateStep =
  date :: int
  delta :: int
  newPeriod :: "periodTag option"

text \<open>
  An element of \<open>availablePeriods\<close> (\<open>currStep\<close> in the source): its properties
  \<open>date\<close>, \<open>quantity\<close>, \<open>newPeriod\<close> carry the prefix \<open>p_\<close> here.
\<close>

record period =
  p_date :: int
  p_quantity :: int
  p_newPeriod :: "periodTag option"

record availabilityResult =
  isAvailable :: bool

record periodsResult = availabilityResult +
  availablePeriods :: "period list"

section \<open>getAvailabilityPeriods\<close>

text \<open>The two steps pushed for a future booking (source lines 459-469).\<close>

definition bookingSteps :: "booking \<Rightarrow> dateStep list" where
  "bookingSteps b =
     [\<lparr>date = startDate b, delta = quantity b, newPeriod = None\<rparr>,
      \<lparr>date = endDate b, delta = - quantity b, newPeriod = None\<rparr>]"

text \<open>The two steps pushed for a listing availability (source lines 471-484).\<close>

definition availabilitySteps :: "listingAvailability \<Rightarrow> dateStep list" where
  "availabilitySteps la =
     (let startSign = (if available la then - 1 else 1);
          endSign = - 1 * startSign
      in [\<lparr>date = startDate la, delta = startSign * quantity la, newPeriod = None\<rparr>,
          \<lparr>date = endDate la, delta = endSign * quantity la, newPeriod = None\<rparr>])"

text \<open>The two tagged steps pushed for the new booking (source lines 486-498).\<close>

definition newBookingSteps :: "booking \<Rightarrow> dateStep list" where
  "newBookingSteps nb =
     [\<lparr>date = startDate nb, delta = quantity nb, newPeriod = Some PeriodStart\<rparr>,
      \<lparr>date = endDate nb, delta = - quantity nb, newPeriod = Some PeriodEnd\<rparr>]"

definition dateSteps ::
  "booking list \<Rightarrow> listingAvailability list \<Rightarrow> booking option \<Rightarrow> dateStep list" where
  "dateSteps futureBookings listingAvailabilities newBooking =
     concat (map bookingSteps futureBookings) @
     concat (map availabilitySteps listingAvailabilities) @
     (case newBooking of None \<Rightarrow> [] | Some nb \<Rightarrow> newBookingSteps nb)"

text \<open>
  \<open>_.sortBy(dateSteps, step => step.date)\<close> is a stable sort on the date;
  \<open>sort_key\<close> is the stable insertion sort of the list library.
\<close>

definition sortedSteps ::
  "booking list \<Rightarrow> listingAvailability list \<Rightarrow> booking option \<Rightarrow> dateStep list" where
  "sortedSteps futureBookings listingAvailabilities newBooking =
     sort_key date (dateSteps futureBookings listingAvailabilities newBooking)"

text \<open>
  The variables the loop of lines 508-530 updates. \<open>oldStep\<close> is not a field:
  it is assigned only where \<open>currStep\<close> is pushed, so it is \<open>undefined\<close> exactly
  while \<open>availablePeriods\<close> is empty and otherwise aliases the last element of
  \<open>availablePeriods\<close>; the assignment \<open>oldStep.quantity = quantity\<close> therefore
  writes into that last element.
\<close>

record sweepState =
  s_periods :: "period list"
  s_quantity :: int
  s_isAvailable :: bool

definition initState :: sweepState where
  "initState = \<lparr>s_periods = [], s_quantity = 0, s_isAvailable = True\<rparr>"

text \<open>\<open>typeof maxQuantity === 'number' && q > maxQuantity\<close>.\<close>

definition exceeds :: "int option \<Rightarrow> int \<Rightarrow> bool" where
  "exceeds maxQuantity q = (case maxQuantity of None \<Rightarrow> False | Some m \<Rightarrow> m < q)"

text \<open>One iteration of the loop body (source lines 509-529).\<close>

definition sweepStep :: "bool \<Rightarrow> int option \<Rightarrow> sweepState \<Rightarrow> dateStep \<Rightarrow> sweepState" where
  "sweepStep hasNewBooking maxQuantity st step =
     (let q = s_quantity st + delta step;
          currStep = \<lparr>p_date = date step, p_quantity = q, p_newPeriod = newPeriod step\<rparr>;
          avail = (if s_isAvailable st \<and> hasNewBooking \<and> exceeds maxQuantity (p_quantity currStep)
                   then False else s_isAvailable st)
      in if s_periods st \<noteq> [] \<and> p_date currStep = p_date (last (s_periods st))
         then \<lparr>s_periods = butlast (s_periods st) @ [(last (s_periods st))\<lparr>p_quantity := q\<rparr>],
               s_quantity = q, s_isAvailable = avail\<rparr>
         else \<lparr>s_periods = s_periods st @ [currStep],
               s_quantity = q, s_isAvailable = avail\<rparr>)"

definition sweep :: "bool \<Rightarrow> int option \<Rightarrow> dateStep list \<Rightarrow> sweepState" where
  "sweep hasNewBooking maxQuantity steps =
     foldl (sweepStep hasNewBooking maxQuantity) initState steps"

text \<open>
  \<open>moment(d).subtract({ d: 1 }).toISOString()\<close>. \<open>moment(d)\<close> is a moment in local
  mode, so the subtraction keeps the wall-clock time of \<open>d\<close> in the time zone of the
  process and moves the date back by one calendar day: 24 hours earlier in a zone without
  clock changes, 23 or 25 hours earlier across a change of one hour. The moment library
  and the zone are not part of the repository. A \<open>zone\<close> stands for the time zone of the
  process, given by what this subtraction does in it: \<open>subtractDay z d\<close> is the instant
  that moment returns for \<open>d\<close>, and all that is known of it is that it is earlier than
  \<open>d\<close>.
\<close>

typedef zone = "{f :: int \<Rightarrow> int. \<forall>d. f d < d}"
  morphisms subtractDay Zone
  by (rule exI [of _ "\<lambda>d. d - 86400000"]) simp

text \<open>The zone UTC, where every calendar day has 86400000 ms.\<close>

definition utcZone :: zone where
  "utcZone = Zone (\<lambda>d. d - 86400000)"

text \<open>
  A zone whose clocks were put forward by one hour during the day before the instant
  \<open>change\<close>: that one calendar day has 23 hours (82800000 ms).
\<close>

definition springZone :: "int \<Rightarrow> zone" where
  "springZone change = Zone (\<lambda>d. if d = change then d - 82800000 else d - 86400000)"

text \<open>Lines 532-538: the leading entry unshifted onto a non-empty list.\<close>

definition withAnchor :: "zone \<Rightarrow> period list \<Rightarrow> period list" where
  "withAnchor z ps =
     (case ps of
        [] \<Rightarrow> []
      | firstStep # _ \<Rightarrow>
          \<lparr>p_date = subtractDay z (p_date firstStep), p_quantity = 0, p_newPeriod = None\<rparr> # ps)"

text \<open>
  The function of lines 456-544. Its first argument \<open>z\<close> is not an argument of the
  source: it is the time zone of the process, which only the date of the anchor depends on.
\<close>

definition getAvailabilityPeriods ::
  "zone \<Rightarrow> booking list \<Rightarrow> listingAvailability list \<Rightarrow> booking option \<Rightarrow> int option
     \<Rightarrow> periodsResult" where
  "getAvailabilityPeriods z futureBookings listingAvailabilities newBooking maxQuantity =
     (let st = sweep (newBooking \<noteq> None) maxQuantity
                 (sortedSteps futureBookings listingAvailabilities newBooking)
      in \<lparr>isAvailable = s_isAvailable st,
          availablePeriods = withAnchor z (s_periods st)\<rparr>)"

section \<open>getAvailabilityDates\<close>

text \<open>
  An element of \<open>availableDates\<close> (a \<open>dateStep\<close> of the date mode): its
  properties \<open>date\<close>, \<open>quantity\<close>, \<open>selected\<close> carry the prefix \<open>d_\<close> here;
  an absent \<open>selected\<close> is \<open>False\<close>.
\<close>

record availableDate =
  d_date :: int
  d_quantity :: int
  d_selected :: bool

text \<open>\<open>_.pick(listingAvailability, ['startDate', 'quantity'])\<close>.\<close>

record exposedAvailability =
  e_startDate :: int
  e_quantity :: int

record datesResult = availabilityResult +
  listingAvailabilities :: "exposedAvailability list"
  availableDates :: "availableDate list"

text \<open>Reading a property of \<open>undefined\<close> throws a \<open>TypeError\<close>.\<close>

datatype error = TypeError

text \<open>
  The object \<open>dateSteps\<close> of the date mode is an association list in insertion
  order, the order in which \<open>_.values\<close> enumerates its string keys.
  \<open>getDateStep\<close> is the lookup-or-create of lines 570-577 and 583-590.
\<close>

definition getDateStep :: "(int \<times> availableDate) list \<Rightarrow> int \<Rightarrow> availableDate" where
  "getDateStep ds d =
     (case map_of ds d of
        None \<Rightarrow> \<lparr>d_date = d, d_quantity = 0, d_selected = False\<rparr>
      | Some dateStep \<Rightarrow> dateStep)"

text \<open>The body of the loop over \<open>futureBookings\<close> (lines 569-580).\<close>

definition addBooking :: "(int \<times> availableDate) list \<Rightarrow> booking \<Rightarrow> (int \<times> availableDate) list" where
  "addBooking ds b =
     (let dateStep = getDateStep ds (startDate b)
      in AList.update (startDate b)
           (dateStep\<lparr>d_quantity := d_quantity dateStep + quantity b\<rparr>) ds)"

text \<open>The block for the new booking (lines 582-594).\<close>

definition addNewBooking :: "(int \<times> availableDate) list \<Rightarrow> booking \<Rightarrow> (int \<times> availableDate) list" where
  "addNewBooking ds nb =
     (let dateStep = getDateStep ds (startDate nb)
      in AList.update (startDate nb)
           (dateStep\<lparr>d_quantity := d_quantity dateStep + quantity nb, d_selected := True\<rparr>) ds)"

definition dateBuckets :: "booking list \<Rightarrow> booking option \<Rightarrow> (int \<times> availableDate) list" where
  "dateBuckets futureBookings newBooking =
     (let ds = foldl addBooking [] futureBookings
      in case newBooking of None \<Rightarrow> ds | Some nb \<Rightarrow> addNewBooking ds nb)"

definition pick :: "listingAvailability \<Rightarrow> exposedAvailability" where
  "pick la = \<lparr>e_startDate = startDate la, e_quantity = quantity la\<rparr>"

text \<open>\<open>_.indexBy(listingAvailabilities, 'startDate')\<close>: a later element overwrites.\<close>

definition indexBy :: "listingAvailability list \<Rightarrow> (int \<rightharpoonup> listingAvailability)" where
  "indexBy las = foldl (\<lambda>m la. m(startDate la \<mapsto> la)) Map.empty las"

text \<open>Lines 604-612; \<open>None\<close> is a \<open>currentMaxQuantity\<close> left \<open>undefined\<close>.\<close>

definition currentMaxQuantity ::
  "listingAvailability list \<Rightarrow> booking option \<Rightarrow> int option \<Rightarrow> int option" where
  "currentMaxQuantity las newBooking maxQuantity =
     (case newBooking of
        None \<Rightarrow> None
      | Some nb \<Rightarrow>
          (case maxQuantity of
             None \<Rightarrow> None
           | Some m \<Rightarrow>
               (case indexBy las (startDate nb) of
                  None \<Rightarrow> Some m
                | Some la \<Rightarrow> Some (quantity la))))"

text \<open>
  Line 614 reads \<open>dateSteps[newBooking.startDate].quantity\<close> only after
  \<open>newBooking\<close> and a numeric \<open>currentMaxQuantity\<close> were found; a missing bucket
  there would throw.
\<close>

definition admissionDates ::
  "(int \<times> availableDate) list \<Rightarrow> booking option \<Rightarrow> int option \<Rightarrow> error + bool" where
  "admissionDates ds newBooking cmq =
     (case newBooking of
        None \<Rightarrow> Inr True
      | Some nb \<Rightarrow>
          (case cmq of
             None \<Rightarrow> Inr True
           | Some c \<Rightarrow>
               (case map_of ds (startDate nb) of
                  None \<Rightarrow> Inl TypeError
                | Some dateStep \<Rightarrow> Inr (\<not> c < d_quantity dateStep))))"

definition getAvailabilityDates ::
  "booking list \<Rightarrow> listingAvailability list \<Rightarrow> booking option \<Rightarrow> int option
     \<Rightarrow> error + datesResult" where
  "getAvailabilityDates futureBookings las newBooking maxQuantity =
     (let ds = dateBuckets futureBookings newBooking;
          sortedDates = sort_key d_date (map snd ds);
          exposedListingAvailabilities = map pick las
      in case admissionDates ds newBooking (currentMaxQuantity las newBooking maxQuantity) of
           Inl e \<Rightarrow> Inl e
         | Inr a \<Rightarrow>
             Inr \<lparr>isAvailable = a,
                  listingAvailabilities = exposedListingAvailabilities,
                  availableDates = sortedDates\<rparr>)"

section \<open>Notions used to state the properties\<close>

text \<open>
  The running totals of a sweep: the value of \<open>quantity\<close> after each step,
  starting from \<open>q\<close>.
\<close>

fun runningTotals :: "int \<Rightarrow> dateStep list \<Rightarrow> int list" where
  "runningTotals q [] = []"
| "runningTotals q (s # ss) = (q + delta s) # runningTotals (q + delta s) ss"

text \<open>The sum of the deltas of the steps dated at or before the instant \<open>t\<close>.\<close>

definition deltaUpTo :: "dateStep list \<Rightarrow> int \<Rightarrow> int" where
  "deltaUpTo steps t = sum_list (map delta (filter (\<lambda>s. date s \<le> t) steps))"

text \<open>
  The quantity a timeline shows at the instant \<open>t\<close>: that of its last entry dated
  at or before \<open>t\<close>, and 0 before its first entry.
\<close>

definition quantityAt :: "period list \<Rightarrow> int \<Rightarrow> int" where
  "quantityAt ps t =
     (case filter (\<lambda>p. p_date p \<le> t) ps of [] \<Rightarrow> 0 | q # qs \<Rightarrow> p_quantity (last (q # qs)))"

text \<open>
  The reading of the admission rule that lets only the part of the sweep from the new
  booking's own first step onward count: some running total exceeds the ceiling at or
  after the first step tagged with \<open>newPeriod\<close>.
\<close>

definition exceedsFromNewBooking :: "int option \<Rightarrow> dateStep list \<Rightarrow> bool" where
  "exceedsFromNewBooking maxQuantity steps =
     list_ex (\<lambda>sq. exceeds maxQuantity (snd sq))
       (dropWhile (\<lambda>sq. newPeriod (fst sq) = None) (zip steps (runningTotals 0 steps)))"

section \<open>Facts about the sweep\<close>

lemma subtractDay_less: "subtractDay z d < d"
  using subtractDay [of z] by simp

lemma subtractDay_utcZone: "subtractDay utcZone d = d - 86400000"
  by (simp add: utcZone_def Zone_inverse)

lemma subtractDay_springZone:
  "subtractDay (springZone c) d = (if d = c then d - 82800000 else d - 86400000)"
  by (simp add: springZone_def Zone_inverse)

lemma sweep_snoc:
  "sweep h mx (xs @ [x]) = sweepStep h mx (sweep h mx xs) x"
  by (simp add: sweep_def)

lemma sweepStep_quantity: "s_quantity (sweepStep h mx st x) = s_quantity st + delta x"
  by (simp add: sweepStep_def Let_def)

lemma sweepStep_isAvailable:
  "s_isAvailable (sweepStep h mx st x) =
     (s_isAvailable st \<and> \<not> (h \<and> exceeds mx (s_quantity st + delta x)))"
  by (auto simp add: sweepStep_def Let_def)

lemma foldl_isAvailable:
  "s_isAvailable (foldl (sweepStep h mx) st xs) =
     (s_isAvailable st \<and> \<not> (h \<and> list_ex (exceeds mx) (runningTotals (s_quantity st) xs)))"
proof (induction xs arbitrary: st)
  case Nil
  show ?case by simp
next
  case (Cons x xs)
  show ?case
    by (simp add: Cons.IH sweepStep_quantity sweepStep_isAvailable) blast
qed

lemma sweep_isAvailable:
  "s_isAvailable (sweep h mx xs) = (\<not> (h \<and> list_ex (exceeds mx) (runningTotals 0 xs)))"
  by (simp add: sweep_def foldl_isAvailable initState_def)

lemma sweep_quantity: "s_quantity (sweep h mx xs) = sum_list (map delta xs)"
  by (induction xs rule: rev_induct) (simp_all add: sweep_snoc sweepStep_quantity sweep_def initState_def)

lemma sweepStep_dates:
  "map p_date (s_periods (sweepStep h mx st x)) =
     (if s_periods st \<noteq> [] \<and> date x = last (map p_date (s_periods st))
      then map p_date (s_periods st) else map p_date (s_periods st) @ [date x])"
proof (cases "s_periods st" rule: rev_cases)
  case Nil
  then show ?thesis by (simp add: sweepStep_def Let_def)
next
  case (snoc ps p)
  then show ?thesis by (simp add: sweepStep_def Let_def)
qed

lemma remdups_adj_snoc:
  "remdups_adj (xs @ [x]) =
     (if xs \<noteq> [] \<and> x = last xs then remdups_adj xs else remdups_adj xs @ [x])"
proof (cases xs rule: rev_cases)
  case Nil
  then show ?thesis by simp
next
  case (snoc ys y)
  then show ?thesis by (simp add: remdups_adj_append_two)
qed

lemma sweep_dates:
  "map p_date (s_periods (sweep h mx xs)) = remdups_adj (map date xs)"
proof (induction xs rule: rev_induct)
  case Nil
  show ?case by (simp add: sweep_def initState_def)
next
  case (snoc x xs)
  have e: "s_periods (sweep h mx xs) \<noteq> [] \<longleftrightarrow> xs \<noteq> []"
    using snoc.IH by (metis map_is_Nil_conv remdups_adj_Nil_iff)
  show ?case
    unfolding sweep_snoc sweepStep_dates snoc.IH e
    by (simp add: remdups_adj_snoc last_map)
qed


lemma sweep_periods_Nil: "s_periods (sweep h mx xs) = [] \<longleftrightarrow> xs = []"
  using sweep_dates [of h mx xs] by (metis map_is_Nil_conv remdups_adj_Nil_iff)

lemma sweep_dates_set: "p_date ` set (s_periods (sweep h mx xs)) = date ` set xs"
  using arg_cong [OF sweep_dates [of h mx xs], of set] by simp

lemma strict_sorted_remdups_adj:
  "sorted (xs :: int list) \<Longrightarrow> sorted_wrt (<) (remdups_adj xs)"
  by (induction xs rule: remdups_adj.induct) (auto simp: order_less_le)

lemma sweep_dates_strict:
  "sorted (map date xs) \<Longrightarrow> sorted_wrt (<) (map p_date (s_periods (sweep h mx xs)))"
  by (simp add: sweep_dates strict_sorted_remdups_adj)

lemma deltaUpTo_snoc:
  "deltaUpTo (xs @ [x]) t = deltaUpTo xs t + (if date x \<le> t then delta x else 0)"
  by (simp add: deltaUpTo_def)

lemma deltaUpTo_all:
  "\<forall>s \<in> set xs. date s \<le> t \<Longrightarrow> deltaUpTo xs t = sum_list (map delta xs)"
  by (induction xs) (simp_all add: deltaUpTo_def)

lemma sweepStep_periods:
  "s_periods (sweepStep h mx st x) =
     (case rev (s_periods st) of
        [] \<Rightarrow> [\<lparr>p_date = date x, p_quantity = s_quantity st + delta x, p_newPeriod = newPeriod x\<rparr>]
      | q # ps \<Rightarrow>
          if date x = p_date q
          then rev ps @ [q\<lparr>p_quantity := s_quantity st + delta x\<rparr>]
          else s_periods st @
            [\<lparr>p_date = date x, p_quantity = s_quantity st + delta x, p_newPeriod = newPeriod x\<rparr>])"
proof (cases "s_periods st" rule: rev_cases)
  case Nil
  then show ?thesis by (simp add: sweepStep_def Let_def)
next
  case (snoc ps p)
  then show ?thesis by (simp add: sweepStep_def Let_def)
qed

lemma sweep_quantities:
  assumes "sorted (map date xs)" and "p \<in> set (s_periods (sweep h mx xs))"
  shows "p_quantity p = deltaUpTo xs (p_date p)"
  using assms
proof (induction xs arbitrary: p rule: rev_induct)
  case Nil
  then show ?case by (simp add: sweep_def initState_def)
next
  case (snoc x xs)
  let ?st = "sweep h mx xs"
  let ?q = "s_quantity ?st + delta x"
  from snoc.prems(1) have srt: "sorted (map date xs)" and le: "\<forall>s \<in> set xs. date s \<le> date x"
    by (auto simp: sorted_append)
  have tot: "?q = deltaUpTo (xs @ [x]) (date x)"
    using le by (simp add: deltaUpTo_snoc deltaUpTo_all sweep_quantity)
  have old: "p_quantity r = deltaUpTo (xs @ [x]) (p_date r)"
    if "r \<in> set (s_periods ?st)" "p_date r \<noteq> date x" for r
  proof -
    have "p_date r \<in> date ` set xs" using that(1) sweep_dates_set [of h mx xs] by blast
    with le that(2) have "p_date r < date x" by force
    then show ?thesis using snoc.IH [OF srt that(1)] by (simp add: deltaUpTo_snoc)
  qed
  have strict: "sorted_wrt (<) (map p_date (s_periods ?st))"
    using srt by (rule sweep_dates_strict)
  show ?case
  proof (cases "s_periods ?st" rule: rev_cases)
    case Nil
    with snoc.prems(2) tot show ?thesis
      by (simp add: sweep_snoc sweepStep_periods)
  next
    case (snoc ps q)
    show ?thesis
    proof (cases "date x = p_date q")
      case True
      from snoc.prems(2) \<open>s_periods ?st = ps @ [q]\<close> True
      have "p \<in> set ps \<or> p = q\<lparr>p_quantity := ?q\<rparr>"
        by (auto simp add: sweep_snoc sweepStep_periods)
      then show ?thesis
      proof
        assume "p \<in> set ps"
        with strict \<open>s_periods ?st = ps @ [q]\<close> True have "p_date p \<noteq> date x"
          by (auto simp: sorted_wrt_append)
        with \<open>p \<in> set ps\<close> \<open>s_periods ?st = ps @ [q]\<close> show ?thesis by (simp add: old)
      next
        assume "p = q\<lparr>p_quantity := ?q\<rparr>"
        with True tot show ?thesis by simp
      qed
    next
      case False
      from snoc.prems(2) \<open>s_periods ?st = ps @ [q]\<close> False
      have "p \<in> set (s_periods ?st) \<or>
            p = \<lparr>p_date = date x, p_quantity = ?q, p_newPeriod = newPeriod x\<rparr>"
        by (auto simp add: sweep_snoc sweepStep_periods)
      then show ?thesis
      proof
        assume in_old: "p \<in> set (s_periods ?st)"
        have "p_date p \<noteq> date x"
        proof
          assume eq: "p_date p = date x"
          from in_old \<open>s_periods ?st = ps @ [q]\<close> False eq have "p \<in> set ps" by auto
          with strict \<open>s_periods ?st = ps @ [q]\<close> have "p_date p < p_date q"
            by (auto simp: sorted_wrt_append)
          moreover have "p_date q \<in> date ` set xs"
            using sweep_dates_set [of h mx xs] \<open>s_periods ?st = ps @ [q]\<close> by auto
          ultimately show False using le eq by force
        qed
        with in_old show ?thesis by (simp add: old)
      next
        assume "p = \<lparr>p_date = date x, p_quantity = ?q, p_newPeriod = newPeriod x\<rparr>"
        with tot show ?thesis by simp
      qed
    qed
  qed
qed

lemma sorted_le_last:
  "sorted (xs :: int list) \<Longrightarrow> xs \<noteq> [] \<Longrightarrow> \<forall>x \<in> set xs. x \<le> last xs"
  by (induction xs) auto

lemma quantityAt_sweep:
  assumes srt: "sorted (map date xs)"
  shows "quantityAt (s_periods (sweep h mx xs)) t = deltaUpTo xs t"
proof -
  let ?ps = "s_periods (sweep h mx xs)"
  let ?F = "filter (\<lambda>p. p_date p \<le> t) ?ps"
  show ?thesis
  proof (cases "?F = []")
    case True
    then have "\<forall>p \<in> set ?ps. \<not> p_date p \<le> t" by (simp add: filter_empty_conv)
    then have "\<forall>s \<in> set xs. \<not> date s \<le> t"
      using sweep_dates_set [of h mx xs] by (metis image_iff)
    then have "filter (\<lambda>s. date s \<le> t) xs = []" by (simp add: filter_empty_conv)
    with True show ?thesis by (simp add: quantityAt_def deltaUpTo_def)
  next
    case False
    let ?p = "last ?F"
    from False have inF: "?p \<in> set ?F" by (rule last_in_set)
    then have inps: "?p \<in> set ?ps" and le: "p_date ?p \<le> t" by auto
    have "sorted (map p_date ?F)"
      using sweep_dates_strict [OF srt, of h mx]
      by (metis sorted_filter strict_sorted_iff)
    then have mx: "\<forall>r \<in> set ?F. p_date r \<le> p_date ?p"
      using False sorted_le_last [of "map p_date ?F"] by (simp add: last_map)
    have "filter (\<lambda>s. date s \<le> t) xs = filter (\<lambda>s. date s \<le> p_date ?p) xs"
    proof (rule filter_cong [OF refl])
      fix s assume "s \<in> set xs"
      then obtain r where r: "r \<in> set ?ps" "p_date r = date s"
        using sweep_dates_set [of h mx xs] by (metis image_iff)
      show "(date s \<le> t) = (date s \<le> p_date ?p)"
      proof
        assume "date s \<le> t"
        with r have "r \<in> set ?F" by simp
        with mx r show "date s \<le> p_date ?p" by auto
      next
        assume "date s \<le> p_date ?p"
        with le show "date s \<le> t" by simp
      qed
    qed
    then have "deltaUpTo xs t = deltaUpTo xs (p_date ?p)" by (simp add: deltaUpTo_def)
    moreover have "quantityAt ?ps t = p_quantity ?p"
      using False by (cases ?F) (simp_all add: quantityAt_def)
    ultimately show ?thesis using sweep_quantities [OF srt inps] by simp
  qed
qed

lemma sorted_sortedSteps: "sorted (map date (sortedSteps bs las nb))"
  by (simp add: sortedSteps_def)

lemma deltaUpTo_sort_key: "deltaUpTo (sort_key date xs) t = deltaUpTo xs t"
proof -
  have "mset (map delta (filter (\<lambda>s. date s \<le> t) (sort_key date xs))) =
        mset (map delta (filter (\<lambda>s. date s \<le> t) xs))"
    by simp
  then show ?thesis unfolding deltaUpTo_def by (metis sum_mset_sum_list)
qed

lemma deltaUpTo_append: "deltaUpTo (xs @ ys) t = deltaUpTo xs t + deltaUpTo ys t"
  by (simp add: deltaUpTo_def)

lemma deltaUpTo_availabilitySteps:
  "deltaUpTo (availabilitySteps la) t =
     (if available la then - 1 else 1) *
       ((if startDate la \<le> t then quantity la else 0) - (if endDate la \<le> t then quantity la else 0))"
  by (simp add: deltaUpTo_def availabilitySteps_def Let_def)

lemma tl_withAnchor: "tl (withAnchor z ps) = ps"
  by (cases ps) (simp_all add: withAnchor_def)

lemma quantityAt_withAnchor:
  assumes "sorted_wrt (<) (map p_date ps)"
  shows "quantityAt (withAnchor z ps) t = quantityAt ps t"
proof (cases ps)
  case Nil
  then show ?thesis by (simp add: withAnchor_def)
next
  case (Cons p ps')
  show ?thesis
  proof (cases "subtractDay z (p_date p) \<le> t")
    case True
    with Cons show ?thesis
      by (cases "filter (\<lambda>r. p_date r \<le> t) (p # ps')")
         (simp_all add: withAnchor_def quantityAt_def)
  next
    case False
    then have "t < p_date p" using subtractDay_less [of z "p_date p"] by simp
    with assms Cons have "filter (\<lambda>r. p_date r \<le> t) ps = []"
      by (auto simp: filter_empty_conv)
    with False Cons show ?thesis by (simp add: withAnchor_def quantityAt_def)
  qed
qed

lemma quantityAt_getAvailabilityPeriods:
  "quantityAt (availablePeriods (getAvailabilityPeriods z bs las nb mx)) t =
     deltaUpTo (dateSteps bs las nb) t"
  by (simp add: getAvailabilityPeriods_def Let_def quantityAt_withAnchor sweep_dates_strict
      sorted_sortedSteps quantityAt_sweep)
     (simp add: sortedSteps_def deltaUpTo_sort_key)

lemma deltaUpTo_dateSteps_insert:
  "deltaUpTo (dateSteps bs (las1 @ la # las2) nb) t =
     deltaUpTo (dateSteps bs (las1 @ las2) nb) t + deltaUpTo (availabilitySteps la) t"
  by (simp add: dateSteps_def deltaUpTo_append)

lemma runningTotals_snoc:
  "runningTotals q (xs @ [x]) = runningTotals q xs @ [q + sum_list (map delta xs) + delta x]"
  by (induction xs arbitrary: q) simp_all

lemma sweep_quantity_in_totals:
  "p \<in> set (s_periods (sweep h mx xs)) \<Longrightarrow> p_quantity p \<in> set (runningTotals 0 xs)"
proof (induction xs arbitrary: p rule: rev_induct)
  case Nil
  then show ?case by (simp add: sweep_def initState_def)
next
  case (snoc x xs)
  show ?case
  proof (cases "s_periods (sweep h mx xs)" rule: rev_cases)
    case Nil
    with snoc.prems show ?thesis
      by (simp add: sweep_snoc sweepStep_periods runningTotals_snoc sweep_quantity)
  next
    case (snoc ps q)
    with snoc.prems snoc.IH show ?thesis
      by (auto simp add: sweep_snoc sweepStep_periods runningTotals_snoc sweep_quantity
          split: if_splits)
  qed
qed

lemma sweep_quantities_distinct:
  "distinct (map date xs) \<Longrightarrow> map p_quantity (s_periods (sweep h mx xs)) = runningTotals 0 xs"
proof (induction xs rule: rev_induct)
  case Nil
  show ?case by (simp add: sweep_def initState_def)
next
  case (snoc x xs)
  then have IH: "map p_quantity (s_periods (sweep h mx xs)) = runningTotals 0 xs"
    and new: "date x \<notin> date ` set xs" by simp_all
  show ?case
  proof (cases "s_periods (sweep h mx xs)" rule: rev_cases)
    case Nil
    with IH show ?thesis
      by (simp add: sweep_snoc sweepStep_periods runningTotals_snoc sweep_quantity)
  next
    case (snoc ps q)
    then have "p_date q \<in> date ` set xs"
      using sweep_dates_set [of h mx xs] by auto
    with new have "date x \<noteq> p_date q" by auto
    with snoc IH show ?thesis
      by (simp add: sweep_snoc sweepStep_periods runningTotals_snoc sweep_quantity)
  qed
qed

lemma distinct_dates_sortedSteps:
  "distinct (map date (sortedSteps bs las nb)) = distinct (map date (dateSteps bs las nb))"
  unfolding sortedSteps_def
  by (rule mset_eq_imp_distinct_iff) simp

lemma isAvailable_getAvailabilityPeriods:
  "isAvailable (getAvailabilityPeriods z bs las nb mx) =
     (\<not> (nb \<noteq> None \<and> list_ex (exceeds mx) (runningTotals 0 (sortedSteps bs las nb))))"
  by (simp add: getAvailabilityPeriods_def Let_def sweep_isAvailable)

lemma timeline_getAvailabilityPeriods:
  "tl (availablePeriods (getAvailabilityPeriods z bs las nb mx)) =
     s_periods (sweep (nb \<noteq> None) mx (sortedSteps bs las nb))"
  by (simp add: getAvailabilityPeriods_def Let_def tl_withAnchor)

lemma sorted_hd_Min_int: "sorted (xs :: int list) \<Longrightarrow> xs \<noteq> [] \<Longrightarrow> hd xs = Min (set xs)"
  by (cases xs) (auto intro!: Min_eqI [symmetric])

lemma sortedSteps_Nil: "sortedSteps bs las nb = [] \<longleftrightarrow> dateSteps bs las nb = []"
  unfolding sortedSteps_def by (metis set_sort set_empty)

lemma first_period_date:
  assumes "dateSteps bs las nb \<noteq> []"
  shows "p_date (hd (s_periods (sweep h mx (sortedSteps bs las nb)))) =
         Min (date ` set (dateSteps bs las nb))"
proof -
  let ?xs = "sortedSteps bs las nb"
  from assms have ne: "?xs \<noteq> []" by (simp add: sortedSteps_Nil)
  then have "s_periods (sweep h mx ?xs) \<noteq> []" by (simp add: sweep_periods_Nil)
  then have "p_date (hd (s_periods (sweep h mx ?xs))) = hd (map p_date (s_periods (sweep h mx ?xs)))"
    by (simp add: hd_map)
  also have "\<dots> = hd (map date ?xs)" by (simp add: sweep_dates)
  also have "\<dots> = Min (set (map date ?xs))"
    using ne by (intro sorted_hd_Min_int) (simp_all add: sorted_sortedSteps)
  also have "set (map date ?xs) = date ` set (dateSteps bs las nb)"
    by (simp add: sortedSteps_def)
  finally show ?thesis .
qed

lemma strict_withAnchor:
  "sorted_wrt (<) (map p_date ps) \<Longrightarrow> sorted_wrt (<) (map p_date (withAnchor z ps))"
  by (cases ps) (auto simp add: withAnchor_def subtractDay_less
      intro: less_trans [OF subtractDay_less])

section \<open>Properties of getAvailabilityPeriods\<close>

text \<open>
  C9: two runs of \<open>getAvailabilityPeriods\<close> that differ by one listing availability
  \<open>la\<close> with \<open>available = true\<close>, inserted anywhere in \<open>listingAvailabilities\<close>,
  over a window \<open>startDate la \<le> endDate la\<close>. At every instant \<open>t\<close> of the window
  (\<open>startDate la \<le> t < endDate la\<close>) the quantity the returned timeline shows is lower by
  exactly \<open>quantity la\<close> than without the declaration, and at every instant at or after
  \<open>endDate la\<close> it is the same.
\<close>

theorem available_declaration_lowers_quantity:
  assumes "available la" and "startDate la \<le> endDate la"
  shows "(startDate la \<le> t \<and> t < endDate la \<longrightarrow>
            quantityAt (availablePeriods (getAvailabilityPeriods z bs (las1 @ la # las2) nb mx)) t =
            quantityAt (availablePeriods (getAvailabilityPeriods z bs (las1 @ las2) nb mx)) t
              - quantity la) \<and>
         (endDate la \<le> t \<longrightarrow>
            quantityAt (availablePeriods (getAvailabilityPeriods z bs (las1 @ la # las2) nb mx)) t =
            quantityAt (availablePeriods (getAvailabilityPeriods z bs (las1 @ las2) nb mx)) t)"
  using assms
  by (simp add: quantityAt_getAvailabilityPeriods deltaUpTo_dateSteps_insert
      deltaUpTo_availabilitySteps)

theorem available_declaration_lowers_quantity_witness:
  "available \<lparr>startDate = 86400000, endDate = 259200000, quantity = 1, available = True\<rparr> \<and>
   (86400000 :: int) \<le> 259200000 \<and> (86400000 :: int) \<le> 172800000 \<and>
   (172800000 :: int) < 259200000 \<and>
   quantityAt (availablePeriods (getAvailabilityPeriods utcZone
       [\<lparr>startDate = 0, endDate = 432000000, quantity = 2\<rparr>]
       ([] @ \<lparr>startDate = 86400000, endDate = 259200000, quantity = 1, available = True\<rparr> # [])
       None None)) 172800000 =
   quantityAt (availablePeriods (getAvailabilityPeriods utcZone
       [\<lparr>startDate = 0, endDate = 432000000, quantity = 2\<rparr>] ([] @ []) None None)) 172800000 - 1 \<and>
   (259200000 :: int) \<le> 345600000 \<and>
   quantityAt (availablePeriods (getAvailabilityPeriods utcZone
       [\<lparr>startDate = 0, endDate = 432000000, quantity = 2\<rparr>]
       ([] @ \<lparr>startDate = 86400000, endDate = 259200000, quantity = 1, available = True\<rparr> # [])
       None None)) 345600000 =
   quantityAt (availablePeriods (getAvailabilityPeriods utcZone
       [\<lparr>startDate = 0, endDate = 432000000, quantity = 2\<rparr>] ([] @ []) None None)) 345600000"
  using available_declaration_lowers_quantity
    [of "\<lparr>startDate = 86400000, endDate = 259200000, quantity = 1, available = True\<rparr>"
        172800000 utcZone "[\<lparr>startDate = 0, endDate = 432000000, quantity = 2\<rparr>]" "[]" "[]"
        None None]
    available_declaration_lowers_quantity
    [of "\<lparr>startDate = 86400000, endDate = 259200000, quantity = 1, available = True\<rparr>"
        345600000 utcZone "[\<lparr>startDate = 0, endDate = 432000000, quantity = 2\<rparr>]" "[]" "[]"
        None None]
  by simp

text \<open>
  C1 (as amended): with a new booking and a numeric \<open>maxQuantity\<close>, \<open>isAvailable\<close> is
  false whenever the quantity of some entry of the timeline (the entries after the leading
  anchor) exceeds \<open>maxQuantity\<close>, wherever that entry lies relative to the new booking,
  also strictly before its start; and when no two steps share a date, \<open>isAvailable\<close> is
  false only if some entry of the timeline exceeds \<open>maxQuantity\<close>.
\<close>

theorem admission_checks_whole_timeline:
  "((\<exists>p \<in> set (tl (availablePeriods (getAvailabilityPeriods z bs las (Some nb) (Some m)))).
        m < p_quantity p)
      \<longrightarrow> \<not> isAvailable (getAvailabilityPeriods z bs las (Some nb) (Some m))) \<and>
   (distinct (map date (dateSteps bs las (Some nb))) \<longrightarrow>
      (\<not> isAvailable (getAvailabilityPeriods z bs las (Some nb) (Some m))) =
      (\<exists>p \<in> set (tl (availablePeriods (getAvailabilityPeriods z bs las (Some nb) (Some m)))).
        m < p_quantity p))"
proof (intro conjI impI)
  assume "\<exists>p \<in> set (tl (availablePeriods (getAvailabilityPeriods z bs las (Some nb) (Some m)))).
        m < p_quantity p"
  then show "\<not> isAvailable (getAvailabilityPeriods z bs las (Some nb) (Some m))"
    by (auto simp add: timeline_getAvailabilityPeriods isAvailable_getAvailabilityPeriods
        list_ex_iff exceeds_def dest: sweep_quantity_in_totals)
next
  assume "distinct (map date (dateSteps bs las (Some nb)))"
  then have "map p_quantity (s_periods (sweep True (Some m) (sortedSteps bs las (Some nb)))) =
      runningTotals 0 (sortedSteps bs las (Some nb))"
    by (simp add: sweep_quantities_distinct distinct_dates_sortedSteps)
  then have "set (runningTotals 0 (sortedSteps bs las (Some nb))) =
      p_quantity ` set (s_periods (sweep True (Some m) (sortedSteps bs las (Some nb))))"
    by (metis list.set_map)
  then show "(\<not> isAvailable (getAvailabilityPeriods z bs las (Some nb) (Some m))) =
      (\<exists>p \<in> set (tl (availablePeriods (getAvailabilityPeriods z bs las (Some nb) (Some m)))).
        m < p_quantity p)"
    by (simp add: timeline_getAvailabilityPeriods isAvailable_getAvailabilityPeriods
        list_ex_iff exceeds_def)
qed

text \<open>
  An instance: a future booking of quantity 5 over the second day of 1970, a new booking
  ten days later, \<open>maxQuantity = 2\<close>. No two steps share a date, the timeline exceeds 2
  on the second day only, and the new booking is refused.
\<close>

theorem admission_checks_whole_timeline_witness:
  "distinct (map date (dateSteps
      [\<lparr>startDate = 86400000, endDate = 172800000, quantity = 5\<rparr>] []
      (Some \<lparr>startDate = 864000000, endDate = 950400000, quantity = 1\<rparr>))) \<and>
   (\<exists>p \<in> set (tl (availablePeriods (getAvailabilityPeriods utcZone
      [\<lparr>startDate = 86400000, endDate = 172800000, quantity = 5\<rparr>] []
      (Some \<lparr>startDate = 864000000, endDate = 950400000, quantity = 1\<rparr>) (Some 2)))).
      2 < p_quantity p) \<and>
   \<not> isAvailable (getAvailabilityPeriods utcZone
      [\<lparr>startDate = 86400000, endDate = 172800000, quantity = 5\<rparr>] []
      (Some \<lparr>startDate = 864000000, endDate = 950400000, quantity = 1\<rparr>) (Some 2))"
proof -
  have d: "distinct (map date (dateSteps
      [\<lparr>startDate = 86400000, endDate = 172800000, quantity = 5\<rparr>] []
      (Some \<lparr>startDate = 864000000, endDate = 950400000, quantity = 1\<rparr>)))"
    by code_simp
  have e: "\<exists>p \<in> set (tl (availablePeriods (getAvailabilityPeriods utcZone
      [\<lparr>startDate = 86400000, endDate = 172800000, quantity = 5\<rparr>] []
      (Some \<lparr>startDate = 864000000, endDate = 950400000, quantity = 1\<rparr>) (Some 2)))).
      2 < p_quantity p"
    by code_simp
  show ?thesis
    using d e admission_checks_whole_timeline
      [of utcZone "[\<lparr>startDate = 86400000, endDate = 172800000, quantity = 5\<rparr>]" "[]"
          "\<lparr>startDate = 864000000, endDate = 950400000, quantity = 1\<rparr>" 2]
    by blast
qed

text \<open>
  C1 as stated fails: in the same instance the only running total above \<open>maxQuantity = 2\<close>
  is reached and left before the first step of the new booking, and \<open>isAvailable\<close> is
  false all the same.
\<close>

theorem breach_before_new_booking_counterexample:
  "\<not> (isAvailable (getAvailabilityPeriods utcZone
          [\<lparr>startDate = 86400000, endDate = 172800000, quantity = 5\<rparr>] []
          (Some \<lparr>startDate = 864000000, endDate = 950400000, quantity = 1\<rparr>) (Some 2)) = False
       \<longleftrightarrow>
       exceedsFromNewBooking (Some 2) (sortedSteps
          [\<lparr>startDate = 86400000, endDate = 172800000, quantity = 5\<rparr>] []
          (Some \<lparr>startDate = 864000000, endDate = 950400000, quantity = 1\<rparr>)))"
  by code_simp

text \<open>
  C3: the threshold test of line 516 reads the running total after each single step.
  A new booking of quantity 1 that ends at the instant where a future booking of
  quantity 1 starts, with \<open>maxQuantity = 1\<close>: the future booking's start is sorted before
  the new booking's end, the running total is 2 between the two steps, and the result is
  \<open>isAvailable = false\<close> although no entry of the returned timeline exceeds 1. The mirrored
  input, where the future booking ends at the instant where the new booking starts, is
  admitted.
\<close>

theorem back_to_back_booking_rejected:
  "getAvailabilityPeriods z
      [\<lparr>startDate = 432000000, endDate = 864000000, quantity = 1\<rparr>] []
      (Some \<lparr>startDate = 86400000, endDate = 432000000, quantity = 1\<rparr>) (Some 1) =
   \<lparr>isAvailable = False,
    availablePeriods =
      [\<lparr>p_date = subtractDay z 86400000, p_quantity = 0, p_newPeriod = None\<rparr>,
       \<lparr>p_date = 86400000, p_quantity = 1, p_newPeriod = Some PeriodStart\<rparr>,
       \<lparr>p_date = 432000000, p_quantity = 1, p_newPeriod = None\<rparr>,
       \<lparr>p_date = 864000000, p_quantity = 0, p_newPeriod = None\<rparr>]\<rparr> \<and>
   isAvailable (getAvailabilityPeriods z
      [\<lparr>startDate = 0, endDate = 86400000, quantity = 1\<rparr>] []
      (Some \<lparr>startDate = 86400000, endDate = 432000000, quantity = 1\<rparr>) (Some 1))"
  by code_simp

text \<open>
  C5: steps that share a date leave one entry holding the final total, but the entry is the
  one built for the first step of the group, and the coalescing branch copies the quantity
  only. A new booking that starts at the instant where a future booking starts: the entry
  of that instant has quantity 2 and no \<open>newPeriod\<close> tag, so the \<open>'start'\<close> tag of the new
  booking is absent from the result.
\<close>

theorem coalesced_boundary_tag_lost:
  "availablePeriods (getAvailabilityPeriods z
      [\<lparr>startDate = 86400000, endDate = 432000000, quantity = 1\<rparr>] []
      (Some \<lparr>startDate = 86400000, endDate = 259200000, quantity = 1\<rparr>) None) =
   [\<lparr>p_date = subtractDay z 86400000, p_quantity = 0, p_newPeriod = None\<rparr>,
    \<lparr>p_date = 86400000, p_quantity = 2, p_newPeriod = None\<rparr>,
    \<lparr>p_date = 259200000, p_quantity = 1, p_newPeriod = Some PeriodEnd\<rparr>,
    \<lparr>p_date = 432000000, p_quantity = 0, p_newPeriod = None\<rparr>]"
  by code_simp

text \<open>
  C6: when no step is built (no future booking, no listing availability, no new booking)
  the returned \<open>availablePeriods\<close> is empty and no anchor is added; otherwise its first
  entry is the anchor, with quantity 0, no tag and the date that lies one calendar day, as
  the time zone \<open>z\<close> of the process counts it, before the earliest date of all steps, and
  the entry after it is dated at that earliest date. In the zone UTC the anchor is
  86400000 ms before the earliest date.
\<close>

theorem anchor_point:
  "(dateSteps bs las nb = [] \<longrightarrow>
      availablePeriods (getAvailabilityPeriods z bs las nb mx) = []) \<and>
   (dateSteps bs las nb \<noteq> [] \<longrightarrow>
      (\<exists>ps. ps \<noteq> [] \<and>
         availablePeriods (getAvailabilityPeriods z bs las nb mx) =
           \<lparr>p_date = subtractDay z (Min (date ` set (dateSteps bs las nb))),
            p_quantity = 0, p_newPeriod = None\<rparr> # ps \<and>
         p_date (hd ps) = Min (date ` set (dateSteps bs las nb)) \<and>
         subtractDay z (Min (date ` set (dateSteps bs las nb))) < p_date (hd ps) \<and>
         subtractDay utcZone (Min (date ` set (dateSteps bs las nb))) =
           Min (date ` set (dateSteps bs las nb)) - 86400000))"
proof (intro conjI impI)
  assume "dateSteps bs las nb = []"
  then show "availablePeriods (getAvailabilityPeriods z bs las nb mx) = []"
    by (simp add: getAvailabilityPeriods_def Let_def sortedSteps_def sweep_def initState_def
        withAnchor_def)
next
  assume ne: "dateSteps bs las nb \<noteq> []"
  let ?ps = "s_periods (sweep (nb \<noteq> None) mx (sortedSteps bs las nb))"
  let ?d = "Min (date ` set (dateSteps bs las nb))"
  from ne have "?ps \<noteq> []" by (simp add: sweep_periods_Nil sortedSteps_Nil)
  then obtain p ps' where ps: "?ps = p # ps'" by (cases ?ps) auto
  have "p_date (hd ?ps) = ?d"
    using ne by (rule first_period_date)
  with ps have "?ps \<noteq> [] \<and>
         availablePeriods (getAvailabilityPeriods z bs las nb mx) =
           \<lparr>p_date = subtractDay z ?d, p_quantity = 0, p_newPeriod = None\<rparr> # ?ps \<and>
         p_date (hd ?ps) = ?d \<and>
         subtractDay z ?d < p_date (hd ?ps) \<and>
         subtractDay utcZone ?d = ?d - 86400000"
    by (simp add: getAvailabilityPeriods_def Let_def withAnchor_def subtractDay_less
        subtractDay_utcZone)
  then show "\<exists>ps. ps \<noteq> [] \<and>
         availablePeriods (getAvailabilityPeriods z bs las nb mx) =
           \<lparr>p_date = subtractDay z ?d, p_quantity = 0, p_newPeriod = None\<rparr> # ps \<and>
         p_date (hd ps) = ?d \<and>
         subtractDay z ?d < p_date (hd ps) \<and>
         subtractDay utcZone ?d = ?d - 86400000"
    by blast
qed

text \<open>
  Instances: no input and no anchor; one future booking from 1970-01-03 in the zone UTC,
  with the anchor 24 hours before it; and the same booking in a zone whose clocks went
  forward during the day before 1970-01-03, with the anchor 23 hours before it.
\<close>

theorem anchor_point_witness:
  "dateSteps [] [] None = [] \<and>
   availablePeriods (getAvailabilityPeriods utcZone [] [] None None) = [] \<and>
   dateSteps [\<lparr>startDate = 172800000, endDate = 432000000, quantity = 1\<rparr>] [] None \<noteq> [] \<and>
   (\<exists>ps. ps \<noteq> [] \<and>
      availablePeriods (getAvailabilityPeriods utcZone
          [\<lparr>startDate = 172800000, endDate = 432000000, quantity = 1\<rparr>] [] None None) =
        \<lparr>p_date = 86400000, p_quantity = 0, p_newPeriod = None\<rparr> # ps \<and>
      p_date (hd ps) = 172800000) \<and>
   (\<exists>ps. ps \<noteq> [] \<and>
      availablePeriods (getAvailabilityPeriods (springZone 172800000)
          [\<lparr>startDate = 172800000, endDate = 432000000, quantity = 1\<rparr>] [] None None) =
        \<lparr>p_date = 90000000, p_quantity = 0, p_newPeriod = None\<rparr> # ps \<and>
      p_date (hd ps) = 172800000)"
proof -
  have a: "dateSteps [] [] None = []" by code_simp
  have b: "dateSteps [\<lparr>startDate = 172800000, endDate = 432000000, quantity = 1\<rparr>] [] None \<noteq> []"
    by code_simp
  have c: "Min (date ` set (dateSteps
      [\<lparr>startDate = 172800000, endDate = 432000000, quantity = 1\<rparr>] [] None)) = 172800000"
    by (simp add: dateSteps_def bookingSteps_def)
  show ?thesis
    using a b anchor_point [of "[]" "[]" None utcZone None]
      anchor_point [of "[\<lparr>startDate = 172800000, endDate = 432000000, quantity = 1\<rparr>]" "[]" None
        utcZone None]
      anchor_point [of "[\<lparr>startDate = 172800000, endDate = 432000000, quantity = 1\<rparr>]" "[]" None
        "springZone 172800000" None]
    unfolding c by (simp add: subtractDay_utcZone subtractDay_springZone) blast
qed

text \<open>
  C7: for every input the dates of the returned \<open>availablePeriods\<close>, anchor included, are
  strictly increasing: each entry is dated strictly after the one before it, so no two
  entries share a date.
\<close>

theorem availablePeriods_strictly_ordered:
  "sorted_wrt (<) (map p_date (availablePeriods (getAvailabilityPeriods z bs las nb mx)))"
  by (simp add: getAvailabilityPeriods_def Let_def strict_withAnchor sweep_dates_strict
      sorted_sortedSteps)

theorem availablePeriods_strictly_ordered_witness:
  "sorted_wrt (<) (map p_date (availablePeriods (getAvailabilityPeriods utcZone
      [\<lparr>startDate = 86400000, endDate = 432000000, quantity = 1\<rparr>] []
      (Some \<lparr>startDate = 86400000, endDate = 259200000, quantity = 1\<rparr>) None))) \<and>
   map p_date (availablePeriods (getAvailabilityPeriods utcZone
      [\<lparr>startDate = 86400000, endDate = 432000000, quantity = 1\<rparr>] []
      (Some \<lparr>startDate = 86400000, endDate = 259200000, quantity = 1\<rparr>) None)) =
     [0, 86400000, 259200000, 432000000]"
proof -
  have "map p_date (availablePeriods (getAvailabilityPeriods z
      [\<lparr>startDate = 86400000, endDate = 432000000, quantity = 1\<rparr>] []
      (Some \<lparr>startDate = 86400000, endDate = 259200000, quantity = 1\<rparr>) None)) =
     [subtractDay z 86400000, 86400000, 259200000, 432000000]" for z
    by code_simp
  then have "map p_date (availablePeriods (getAvailabilityPeriods utcZone
      [\<lparr>startDate = 86400000, endDate = 432000000, quantity = 1\<rparr>] []
      (Some \<lparr>startDate = 86400000, endDate = 259200000, quantity = 1\<rparr>) None)) =
     [0, 86400000, 259200000, 432000000]"
    by (simp add: subtractDay_utcZone)
  then show ?thesis
    using availablePeriods_strictly_ordered
      [of utcZone "[\<lparr>startDate = 86400000, endDate = 432000000, quantity = 1\<rparr>]" "[]"
          "Some \<lparr>startDate = 86400000, endDate = 259200000, quantity = 1\<rparr>" None]
    by blast
qed

section \<open>Facts about the date buckets\<close>

lemma map_of_addBooking:
  "map_of (addBooking ds b) =
     (map_of ds)(startDate b \<mapsto>
        (getDateStep ds (startDate b))\<lparr>d_quantity := d_quantity (getDateStep ds (startDate b)) + quantity b\<rparr>)"
  by (simp add: addBooking_def Let_def update_conv')

lemma distinct_addBooking: "distinct (map fst ds) \<Longrightarrow> distinct (map fst (addBooking ds b))"
  by (simp add: addBooking_def Let_def distinct_update)

lemma keys_addBooking: "fst ` set (addBooking ds b) = insert (startDate b) (fst ` set ds)"
  by (simp add: addBooking_def Let_def dom_update)

lemma distinct_foldl_addBooking: "distinct (map fst (foldl addBooking [] bs))"
  by (induction bs rule: rev_induct) (simp_all add: distinct_addBooking)

lemma keys_foldl_addBooking: "fst ` set (foldl addBooking [] bs) = startDate ` set bs"
  by (induction bs rule: rev_induct) (auto simp add: keys_addBooking)

lemma filter_startDate_Nil:
  "d \<notin> startDate ` set bs \<Longrightarrow> filter (\<lambda>b. startDate b = d) bs = []"
  by (auto simp add: filter_empty_conv)

lemma map_of_foldl_addBooking:
  "map_of (foldl addBooking [] bs) d =
     (if d \<in> startDate ` set bs
      then Some \<lparr>d_date = d,
                 d_quantity = sum_list (map quantity (filter (\<lambda>b. startDate b = d) bs)),
                 d_selected = False\<rparr>
      else None)"
proof (induction bs arbitrary: d rule: rev_induct)
  case Nil
  show ?case by simp
next
  case (snoc b bs)
  show ?case
  proof (cases "d = startDate b")
    case False
    then show ?thesis by (auto simp add: map_of_addBooking snoc.IH)
  next
    case True
    show ?thesis
    proof (cases "startDate b \<in> startDate ` set bs")
      case True
      with \<open>d = startDate b\<close> show ?thesis
        by (simp add: map_of_addBooking getDateStep_def snoc.IH)
    next
      case False
      with \<open>d = startDate b\<close> show ?thesis
        by (simp add: map_of_addBooking getDateStep_def snoc.IH filter_startDate_Nil)
    qed
  qed
qed

lemma map_of_addNewBooking:
  "map_of (addNewBooking ds nb) =
     (map_of ds)(startDate nb \<mapsto>
        (getDateStep ds (startDate nb))\<lparr>d_quantity := d_quantity (getDateStep ds (startDate nb)) + quantity nb,
           d_selected := True\<rparr>)"
  by (simp add: addNewBooking_def Let_def update_conv')

lemma distinct_dateBuckets: "distinct (map fst (dateBuckets bs nb))"
  by (cases nb)
     (simp_all add: dateBuckets_def Let_def distinct_foldl_addBooking addNewBooking_def
       distinct_update)

lemma keys_dateBuckets:
  "fst ` set (dateBuckets bs nb) =
     startDate ` set bs \<union> (case nb of None \<Rightarrow> {} | Some b \<Rightarrow> {startDate b})"
  by (cases nb)
     (auto simp add: dateBuckets_def Let_def keys_foldl_addBooking addNewBooking_def dom_update)

lemma map_of_dateBuckets_new:
  "map_of (dateBuckets bs (Some nb)) (startDate nb) =
     Some \<lparr>d_date = startDate nb,
           d_quantity = sum_list (map quantity (filter (\<lambda>b. startDate b = startDate nb) bs))
                          + quantity nb,
           d_selected = True\<rparr>"
  by (simp add: dateBuckets_def Let_def map_of_addNewBooking getDateStep_def
      map_of_foldl_addBooking filter_startDate_Nil)

lemma map_of_dateBuckets:
  assumes "map_of (dateBuckets bs nb) d = Some v"
  shows "d_date v = d \<and>
     d_quantity v = sum_list (map quantity (filter (\<lambda>b. startDate b = d) bs)) +
        (case nb of None \<Rightarrow> 0 | Some b \<Rightarrow> if startDate b = d then quantity b else 0) \<and>
     d_selected v = (case nb of None \<Rightarrow> False | Some b \<Rightarrow> startDate b = d)"
proof (cases nb)
  case None
  with assms show ?thesis
    by (auto simp add: dateBuckets_def Let_def map_of_foldl_addBooking split: if_splits)
next
  case (Some b)
  show ?thesis
  proof (cases "startDate b = d")
    case True
    with assms Some show ?thesis using map_of_dateBuckets_new [of bs b] by auto
  next
    case False
    with assms Some show ?thesis
      by (auto simp add: dateBuckets_def Let_def map_of_addNewBooking map_of_foldl_addBooking
          split: if_splits)
  qed
qed

lemma indexBy_snoc: "indexBy (las @ [la]) = (indexBy las)(startDate la \<mapsto> la)"
  by (simp add: indexBy_def)

lemma indexBy_find:
  "indexBy las d = find (\<lambda>la. startDate la = d) (rev las)"
  by (induction las rule: rev_induct) (simp_all add: indexBy_snoc, simp add: indexBy_def)


lemma admissionDates_dateBuckets:
  "admissionDates (dateBuckets bs nb) nb cmq =
     Inr (case nb of
            None \<Rightarrow> True
          | Some b \<Rightarrow>
              (case cmq of
                 None \<Rightarrow> True
               | Some c \<Rightarrow>
                   sum_list (map quantity (filter (\<lambda>k. startDate k = startDate b) bs))
                     + quantity b \<le> c))"
  by (auto simp add: admissionDates_def map_of_dateBuckets_new split: option.splits)

lemma getAvailabilityDates_result:
  "getAvailabilityDates bs las nb mx =
     Inr \<lparr>isAvailable =
            (case nb of
               None \<Rightarrow> True
             | Some b \<Rightarrow>
                 (case currentMaxQuantity las nb mx of
                    None \<Rightarrow> True
                  | Some c \<Rightarrow>
                      sum_list (map quantity (filter (\<lambda>k. startDate k = startDate b) bs))
                        + quantity b \<le> c)),
          listingAvailabilities = map pick las,
          availableDates = sort_key d_date (map snd (dateBuckets bs nb))\<rparr>"
  by (simp add: getAvailabilityDates_def Let_def admissionDates_dateBuckets)

lemma currentMaxQuantity_find:
  "currentMaxQuantity las (Some nb) (Some m) =
     Some (case find (\<lambda>la. startDate la = startDate nb) (rev las) of
             None \<Rightarrow> m | Some la \<Rightarrow> quantity la)"
  by (simp add: currentMaxQuantity_def indexBy_find split: option.splits)

lemma pair_in_dateBuckets:
  assumes "(k, v) \<in> set (dateBuckets bs nb)"
  shows "d_date v = k \<and>
     d_quantity v = sum_list (map quantity (filter (\<lambda>b. startDate b = k) bs)) +
        (case nb of None \<Rightarrow> 0 | Some b \<Rightarrow> if startDate b = k then quantity b else 0) \<and>
     d_selected v = (case nb of None \<Rightarrow> False | Some b \<Rightarrow> startDate b = k)"
proof -
  have "map_of (dateBuckets bs nb) k = Some v"
    using assms distinct_dateBuckets [of bs nb] by simp
  then show ?thesis by (rule map_of_dateBuckets)
qed

lemma dates_of_dateBuckets: "map d_date (map snd (dateBuckets bs nb)) = map fst (dateBuckets bs nb)"
proof -
  have "d_date (snd kv) = fst kv" if "kv \<in> set (dateBuckets bs nb)" for kv
    using pair_in_dateBuckets [of "fst kv" "snd kv" bs nb] that by simp
  then show ?thesis by simp
qed


lemma strict_sorted_dates:
  "sorted_wrt (<) (map d_date (sort_key d_date (map snd (dateBuckets bs nb))))"
proof -
  let ?vs = "map snd (dateBuckets bs nb)"
  have "mset (map d_date (sort_key d_date ?vs)) = mset (map d_date ?vs)"
    by (simp only: mset_map mset_sort)
  then have "distinct (map d_date (sort_key d_date ?vs)) = distinct (map d_date ?vs)"
    by (rule mset_eq_imp_distinct_iff)
  also have "\<dots>" by (simp only: dates_of_dateBuckets distinct_dateBuckets)
  finally show ?thesis by (simp add: strict_sorted_iff)
qed

lemma set_sorted_dates:
  "set (map d_date (sort_key d_date (map snd (dateBuckets bs nb)))) =
     startDate ` set bs \<union> (case nb of None \<Rightarrow> {} | Some b \<Rightarrow> {startDate b})"
proof -
  have "set (map d_date (sort_key d_date (map snd (dateBuckets bs nb)))) =
        set (map d_date (map snd (dateBuckets bs nb)))"
    by (simp only: set_map set_sort)
  also have "\<dots> = fst ` set (dateBuckets bs nb)"
    by (simp only: dates_of_dateBuckets set_map)
  finally show ?thesis by (simp only: keys_dateBuckets)
qed

lemma indexBy_quantity_pick:
  "map_option quantity (indexBy las d) =
     map_option e_quantity (find (\<lambda>e. e_startDate e = d) (rev (map pick las)))"
proof (induction las rule: rev_induct)
  case Nil
  show ?case by (simp add: indexBy_def)
next
  case (snoc la las)
  then show ?case by (simp add: indexBy_snoc pick_def)
qed

lemma currentMaxQuantity_pick:
  "map pick las = map pick las' \<Longrightarrow>
     currentMaxQuantity las nb mx = currentMaxQuantity las' nb mx"
proof -
  assume eq: "map pick las = map pick las'"
  have "map_option quantity (indexBy las d) = map_option quantity (indexBy las' d)" for d
    by (simp only: indexBy_quantity_pick eq)
  then have "(case indexBy las d of None \<Rightarrow> Some m | Some la \<Rightarrow> Some (quantity la)) =
        (case indexBy las' d of None \<Rightarrow> Some m | Some la \<Rightarrow> Some (quantity la))" for d m
    by (cases "indexBy las d"; cases "indexBy las' d") (force dest: spec [of _ d])+
  then show ?thesis by (simp add: currentMaxQuantity_def split: option.splits)
qed

section \<open>Properties of getAvailabilityDates\<close>

text \<open>
  C2 (as amended): with a new booking, \<open>getAvailabilityDates\<close> returns a result. When a
  numeric \<open>maxQuantity\<close> is supplied, its \<open>isAvailable\<close> says that the total of the new
  booking's date bucket (the quantities of the future bookings on that date plus its own)
  does not exceed the effective ceiling: the quantity of the listing availability whose
  \<open>startDate\<close> is the new booking's date when there is one (the last of the list, the one
  \<open>_.indexBy\<close> keeps, should several share the date), instead of \<open>maxQuantity\<close>, and
  \<open>maxQuantity\<close> otherwise. When no numeric \<open>maxQuantity\<close> is supplied there is no
  ceiling: the declarations are not consulted and \<open>isAvailable\<close> is true.
\<close>

theorem declaration_overrides_ceiling:
  "\<exists>r. getAvailabilityDates bs las (Some nb) mx = Inr r \<and>
       isAvailable r =
         (case mx of
            None \<Rightarrow> True
          | Some m \<Rightarrow>
              sum_list (map quantity (filter (\<lambda>b. startDate b = startDate nb) bs)) + quantity nb
                \<le> (case find (\<lambda>la. startDate la = startDate nb) (rev las) of
                      None \<Rightarrow> m
                    | Some la \<Rightarrow> quantity la))"
proof (cases mx)
  case None
  then show ?thesis by (simp add: getAvailabilityDates_result currentMaxQuantity_def)
next
  case (Some m)
  then show ?thesis by (simp add: getAvailabilityDates_result currentMaxQuantity_find)
qed

text \<open>
  The example of the specification: a declaration of quantity 1 on the date of the new
  booking overrides \<open>maxQuantity = 10\<close>, and a bucket total of 2 is refused. The same
  input without \<open>maxQuantity\<close> is admitted.
\<close>

theorem declaration_overrides_ceiling_witness:
  "(\<exists>r. getAvailabilityDates
          [\<lparr>startDate = 1707523200000, endDate = 1707523200000, quantity = 1\<rparr>]
          [\<lparr>startDate = 1707523200000, endDate = 1707523200000, quantity = 1,
             available = True\<rparr>]
          (Some \<lparr>startDate = 1707523200000, endDate = 1707523200000, quantity = 1\<rparr>)
          (Some 10) = Inr r \<and>
       isAvailable r = False) \<and>
   (\<exists>r. getAvailabilityDates
          [\<lparr>startDate = 1707523200000, endDate = 1707523200000, quantity = 1\<rparr>]
          [\<lparr>startDate = 1707523200000, endDate = 1707523200000, quantity = 1,
             available = True\<rparr>]
          (Some \<lparr>startDate = 1707523200000, endDate = 1707523200000, quantity = 1\<rparr>)
          None = Inr r \<and>
       isAvailable r = True)"
  using declaration_overrides_ceiling
    [of "[\<lparr>startDate = 1707523200000, endDate = 1707523200000, quantity = 1\<rparr>]"
        "[\<lparr>startDate = 1707523200000, endDate = 1707523200000, quantity = 1,
            available = True\<rparr>]"
        "\<lparr>startDate = 1707523200000, endDate = 1707523200000, quantity = 1\<rparr>" "Some 10"]
    declaration_overrides_ceiling
    [of "[\<lparr>startDate = 1707523200000, endDate = 1707523200000, quantity = 1\<rparr>]"
        "[\<lparr>startDate = 1707523200000, endDate = 1707523200000, quantity = 1,
            available = True\<rparr>]"
        "\<lparr>startDate = 1707523200000, endDate = 1707523200000, quantity = 1\<rparr>" None]
  by simp

text \<open>
  C2 as stated fails where no \<open>maxQuantity\<close> is supplied: a future booking and a new
  booking of quantity 1 each on 2024-02-10 and a declaration of quantity 1 on that date.
  The bucket total of the date is 2, above the declaration's quantity, and the result is
  \<open>isAvailable = true\<close>: the verdict does not compare the total against the declaration.
\<close>

theorem declaration_without_ceiling_counterexample:
  "getAvailabilityDates
      [\<lparr>startDate = 1707523200000, endDate = 1707523200000, quantity = 1\<rparr>]
      [\<lparr>startDate = 1707523200000, endDate = 1707523200000, quantity = 1, available = True\<rparr>]
      (Some \<lparr>startDate = 1707523200000, endDate = 1707523200000, quantity = 1\<rparr>)
      None =
     Inr \<lparr>isAvailable = True,
          listingAvailabilities = [\<lparr>e_startDate = 1707523200000, e_quantity = 1\<rparr>],
          availableDates =
            [\<lparr>d_date = 1707523200000, d_quantity = 2, d_selected = True\<rparr>]\<rparr> \<and>
   \<not> (isAvailable (projr (getAvailabilityDates
      [\<lparr>startDate = 1707523200000, endDate = 1707523200000, quantity = 1\<rparr>]
      [\<lparr>startDate = 1707523200000, endDate = 1707523200000, quantity = 1, available = True\<rparr>]
      (Some \<lparr>startDate = 1707523200000, endDate = 1707523200000, quantity = 1\<rparr>)
      None))
     \<longleftrightarrow>
     2 \<le> quantity
       \<lparr>startDate = 1707523200000, endDate = 1707523200000, quantity = 1, available = True\<rparr>)"
proof -
  have "getAvailabilityDates
      [\<lparr>startDate = 1707523200000, endDate = 1707523200000, quantity = 1\<rparr>]
      [\<lparr>startDate = 1707523200000, endDate = 1707523200000, quantity = 1, available = True\<rparr>]
      (Some \<lparr>startDate = 1707523200000, endDate = 1707523200000, quantity = 1\<rparr>)
      None =
     Inr \<lparr>isAvailable = True,
          listingAvailabilities = [\<lparr>e_startDate = 1707523200000, e_quantity = 1\<rparr>],
          availableDates =
            [\<lparr>d_date = 1707523200000, d_quantity = 2, d_selected = True\<rparr>]\<rparr>"
    by code_simp
  then show ?thesis by simp
qed

text \<open>
  C4: \<open>getAvailabilityDates\<close> returns a result whose \<open>availableDates\<close> are dated strictly
  increasingly (sorted chronologically, one bucket per date), whose dates are exactly the
  \<open>startDate\<close>s of the future bookings together with that of the new booking, and where
  the quantity of every bucket is the sum of the quantities of all future bookings on its
  date, plus the quantity of the new booking when its date is the bucket's.
\<close>

theorem availableDates_buckets:
  "\<exists>r. getAvailabilityDates bs las nb mx = Inr r \<and>
       sorted_wrt (<) (map d_date (availableDates r)) \<and>
       set (map d_date (availableDates r)) =
         startDate ` set bs \<union> (case nb of None \<Rightarrow> {} | Some b \<Rightarrow> {startDate b}) \<and>
       (\<forall>v \<in> set (availableDates r).
          d_quantity v =
            sum_list (map quantity (filter (\<lambda>b. startDate b = d_date v) bs)) +
            (case nb of None \<Rightarrow> 0 | Some b \<Rightarrow> if startDate b = d_date v then quantity b else 0))"
proof -
  have "d_quantity v =
            sum_list (map quantity (filter (\<lambda>b. startDate b = d_date v) bs)) +
            (case nb of None \<Rightarrow> 0 | Some b \<Rightarrow> if startDate b = d_date v then quantity b else 0)"
    if "v \<in> set (sort_key d_date (map snd (dateBuckets bs nb)))" for v
  proof -
    from that obtain k where kv: "(k, v) \<in> set (dateBuckets bs nb)" by auto
    from pair_in_dateBuckets [OF kv] have "k = d_date v" by simp
    with kv have "(d_date v, v) \<in> set (dateBuckets bs nb)" by simp
    from pair_in_dateBuckets [OF this] show ?thesis by simp
  qed
  then show ?thesis
    unfolding getAvailabilityDates_result
    using strict_sorted_dates [of bs nb] set_sorted_dates [of bs nb] by simp
qed

theorem availableDates_buckets_witness:
  "getAvailabilityDates
      [\<lparr>startDate = 1707523200000, endDate = 1707523200000, quantity = 1\<rparr>,
       \<lparr>startDate = 1707436800000, endDate = 1707436800000, quantity = 5\<rparr>,
       \<lparr>startDate = 1707523200000, endDate = 1707523200000, quantity = 2\<rparr>]
      []
      (Some \<lparr>startDate = 1707523200000, endDate = 1707523200000, quantity = 1\<rparr>)
      (Some 4) =
    Inr \<lparr>isAvailable = True, listingAvailabilities = [],
         availableDates =
           [\<lparr>d_date = 1707436800000, d_quantity = 5, d_selected = False\<rparr>,
            \<lparr>d_date = 1707523200000, d_quantity = 4, d_selected = True\<rparr>]\<rparr> \<and>
   (\<exists>r. getAvailabilityDates
      [\<lparr>startDate = 1707523200000, endDate = 1707523200000, quantity = 1\<rparr>,
       \<lparr>startDate = 1707436800000, endDate = 1707436800000, quantity = 5\<rparr>,
       \<lparr>startDate = 1707523200000, endDate = 1707523200000, quantity = 2\<rparr>]
      []
      (Some \<lparr>startDate = 1707523200000, endDate = 1707523200000, quantity = 1\<rparr>)
      (Some 4) = Inr r \<and>
      sorted_wrt (<) (map d_date (availableDates r)) \<and>
      set (map d_date (availableDates r)) = {1707523200000, 1707436800000} \<and>
      (\<forall>v \<in> set (availableDates r).
         d_quantity v =
           (if d_date v = 1707523200000 then 4 else if d_date v = 1707436800000 then 5 else 0)))"
proof -
  have "getAvailabilityDates
      [\<lparr>startDate = 1707523200000, endDate = 1707523200000, quantity = 1\<rparr>,
       \<lparr>startDate = 1707436800000, endDate = 1707436800000, quantity = 5\<rparr>,
       \<lparr>startDate = 1707523200000, endDate = 1707523200000, quantity = 2\<rparr>]
      []
      (Some \<lparr>startDate = 1707523200000, endDate = 1707523200000, quantity = 1\<rparr>)
      (Some 4) =
    Inr \<lparr>isAvailable = True, listingAvailabilities = [],
         availableDates =
           [\<lparr>d_date = 1707436800000, d_quantity = 5, d_selected = False\<rparr>,
            \<lparr>d_date = 1707523200000, d_quantity = 4, d_selected = True\<rparr>]\<rparr>"
    by code_simp
  then show ?thesis
    using availableDates_buckets
      [of "[\<lparr>startDate = 1707523200000, endDate = 1707523200000, quantity = 1\<rparr>,
            \<lparr>startDate = 1707436800000, endDate = 1707436800000, quantity = 5\<rparr>,
            \<lparr>startDate = 1707523200000, endDate = 1707523200000, quantity = 2\<rparr>]"
          "[]"
          "Some \<lparr>startDate = 1707523200000, endDate = 1707523200000, quantity = 1\<rparr>"
          "Some 4"]
    by auto
qed

text \<open>
  C10: two lists of listing availabilities that agree element by element on \<open>startDate\<close>,
  \<open>endDate\<close> and \<open>quantity\<close>, so differ in the \<open>available\<close> fields at most, give the same
  result of \<open>getAvailabilityDates\<close>: the same \<open>isAvailable\<close>, \<open>availableDates\<close> and exposed
  \<open>listingAvailabilities\<close>.
\<close>

theorem dates_independent_of_available:
  assumes "list_all2 (\<lambda>a b. startDate a = startDate b \<and> endDate a = endDate b \<and>
              quantity a = quantity b) las las'"
  shows "getAvailabilityDates bs las nb mx = getAvailabilityDates bs las' nb mx"
proof -
  from assms have "list_all2 (\<lambda>a b. pick a = pick b) las las'"
    by (rule list_all2_mono) (simp add: pick_def)
  then have eq: "map pick las = map pick las'"
    by (induction rule: list_all2_induct) simp_all
  show ?thesis
    by (simp only: getAvailabilityDates_result eq currentMaxQuantity_pick [OF eq])
qed

theorem dates_independent_of_available_witness:
  "list_all2 (\<lambda>a b. startDate a = startDate b \<and> endDate a = endDate b \<and>
        quantity a = quantity b)
     [\<lparr>startDate = 1707523200000, endDate = 1707523200000, quantity = 1, available = True\<rparr>]
     [\<lparr>startDate = 1707523200000, endDate = 1707523200000, quantity = 1, available = False\<rparr>] \<and>
   getAvailabilityDates []
     [\<lparr>startDate = 1707523200000, endDate = 1707523200000, quantity = 1, available = True\<rparr>]
     (Some \<lparr>startDate = 1707523200000, endDate = 1707523200000, quantity = 2\<rparr>) (Some 10) =
   getAvailabilityDates []
     [\<lparr>startDate = 1707523200000, endDate = 1707523200000, quantity = 1, available = False\<rparr>]
     (Some \<lparr>startDate = 1707523200000, endDate = 1707523200000, quantity = 2\<rparr>) (Some 10)"
proof -
  have h: "list_all2 (\<lambda>a b. startDate a = startDate b \<and> endDate a = endDate b \<and>
        quantity a = quantity b)
     [\<lparr>startDate = 1707523200000, endDate = 1707523200000, quantity = 1, available = True\<rparr>]
     [\<lparr>startDate = 1707523200000, endDate = 1707523200000, quantity = 1, available = False\<rparr>]"
    by simp
  from h dates_independent_of_available [OF h] show ?thesis by blast
qed

section \<open>Both functions\<close>

text \<open>
  C8: neither function throws. \<open>getAvailabilityPeriods\<close> has no failing operation (its
  only indexed read, \<open>availablePeriods[0]\<close>, is guarded by the length test), and
  \<open>getAvailabilityDates\<close>, whose read of the new booking's bucket at line 614 could throw,
  returns a result for every input, empty lists and absent arguments included. Whenever
  the new booking or a numeric \<open>maxQuantity\<close> is absent, both return \<open>isAvailable = true\<close>.
\<close>

theorem structured_result_always:
  "(\<exists>r. getAvailabilityDates bs las nb mx = Inr r) \<and>
   (nb = None \<or> mx = None \<longrightarrow>
      isAvailable (getAvailabilityPeriods z bs las nb mx) \<and>
      (\<exists>r. getAvailabilityDates bs las nb mx = Inr r \<and> isAvailable r))"
  by (auto simp add: getAvailabilityDates_result isAvailable_getAvailabilityPeriods
      currentMaxQuantity_def exceeds_def list_ex_iff split: option.splits)

theorem structured_result_always_witness:
  "(None = (None :: booking option) \<or> Some (0 :: int) = None) \<and>
   isAvailable (getAvailabilityPeriods utcZone
      [\<lparr>startDate = 86400000, endDate = 172800000, quantity = 5\<rparr>] [] None (Some 0)) \<and>
   (\<exists>r. getAvailabilityDates
      [\<lparr>startDate = 86400000, endDate = 172800000, quantity = 5\<rparr>] [] None (Some 0) = Inr r \<and>
      isAvailable r) \<and>
   (\<exists>r. getAvailabilityDates [] [] None None = Inr r)"
  using structured_result_always
      [of "[\<lparr>startDate = 86400000, endDate = 172800000, quantity = 5\<rparr>]" "[]" None "Some 0"
          utcZone]
    structured_result_always [of "[]" "[]" None None utcZone]
  by simp

end
